theory Spec2Isabelle
  imports Main "HOL-Library.AList"
begin

section \<open>The worker manager of sanic/worker/manager.py\<close>

subsection \<open>Python values and dictionaries\<close>

text \<open>
  The shared state table is a dictionary from a process name to a dictionary of Python
  values. A dictionary is an association list in insertion order with distinct keys;
  \<open>d[k] = v\<close> is \<open>AList.update\<close>, \<open>d.get(k)\<close> is \<open>dict_get\<close> (None when the key is
  absent) and \<open>d.values()\<close> is \<open>map snd\<close>. Strings are lists of code points below 256.
\<close>

datatype pyval = PNone | PBool bool | PInt int | PStr string

type_synonym pydict = "(string \<times> pyval) list"

type_synonym table = "(string \<times> pydict) list"

fun truthy :: "pyval \<Rightarrow> bool" where
  "truthy PNone = False"
| "truthy (PBool b) = b"
| "truthy (PInt i) = (i \<noteq> 0)"
| "truthy (PStr s) = (s \<noteq> [])"

definition dict_get :: "pydict \<Rightarrow> string \<Rightarrow> pyval" where
  "dict_get d k = (case map_of d k of None \<Rightarrow> PNone | Some v \<Rightarrow> v)"

subsection \<open>Collaborators\<close>

text \<open>
  \<open>sanic.worker.process\<close>, \<open>sanic.compat\<close> and \<open>sanic.exceptions\<close> are imported by the
  manager. A process is what the manager reads of a \<open>WorkerProcess\<close>: its name, its pid
  and its state (the integer rank of its \<open>ProcessState\<close>). A worker is a name with its
  processes.
\<close>

record process =
  pname :: string
  ppid :: nat
  pstate :: nat

record worker =
  wname :: string
  wprocesses :: "process list"

text \<open>The keyword arguments of a call, in the order they are passed.\<close>

type_synonym kwargs = "(string \<times> string option) list"

text \<open>
  What the imported modules provide is taken as a parameter of every operation:
  the platform flag \<open>OS_IS_WINDOWS\<close>, the constants \<open>WorkerProcess.SERVER_LABEL\<close>,
  \<open>ProcessState.ACKED.name\<close> and \<open>ProcessState.JOINED\<close>, the result of \<open>os.getpid()\<close>,
  the constructor \<open>Worker(ident, ...)\<close> (which receives the shared table and may write
  to it), and the effect that each method of a \<open>WorkerProcess\<close> has on that process.
  These calls are taken not to raise.
\<close>

record env =
  OS_IS_WINDOWS :: bool
  SERVER_LABEL :: string
  ACKED_name :: string
  JOINED :: nat
  getpid :: nat
  Worker :: "string \<Rightarrow> table \<Rightarrow> worker \<times> table"
  process_start :: "process \<Rightarrow> process"
  process_join :: "process \<Rightarrow> process"
  process_terminate :: "process \<Rightarrow> process"
  process_restart :: "kwargs \<Rightarrow> process \<Rightarrow> process"
  process_is_alive :: "process \<Rightarrow> bool"

subsection \<open>The manager and what it does to the outside\<close>

datatype signal = SIGINT | SIGTERM | SIGKILL

text \<open>
  Every call the manager makes on a collaborator, on the operating system, on a logger
  (above debug level) or on the publish side of the control channel is recorded, in
  order, in the field \<open>effects\<close>. A process is named in a call by its pid.
\<close>

datatype effect =
    Start nat
  | Join nat
  | Terminate nat
  | Restart nat kwargs
  | OsKill nat signal
  | LogKilling string nat
  | LogError string
  | LogSignal signal
  | Send "string option"
  | InstallHandler signal

record manager =
  num_server :: int
  transient :: "worker list"
  durable :: "worker list"
  worker_state :: table
  terminated :: bool
  effects :: "effect list"

datatype error = RuntimeError string | ServerKilled | InterruptedError

text \<open>
  How a call ends: it returns, it raises, or (for the two polling loops, which read what
  the channel delivers from a finite list) it is still polling when the list is used up.
\<close>

datatype outcome = Returned | Raised error | Polling

definition THRESHOLD :: nat where
  "THRESHOLD = 300"

text \<open>The module constant \<open>SIGKILL\<close>: the signal of that name, and \<open>SIGINT\<close> on Windows.\<close>

definition SIGKILL_const :: "env \<Rightarrow> signal" where
  "SIGKILL_const e = (if \<not> OS_IS_WINDOWS e then SIGKILL else SIGINT)"

subsection \<open>Accessors\<close>

definition workers :: "manager \<Rightarrow> worker list" where
  "workers m = transient m @ durable m"

definition processes :: "manager \<Rightarrow> process list" where
  "processes m = concat (map wprocesses (workers m))"

definition transient_processes :: "manager \<Rightarrow> process list" where
  "transient_processes m = concat (map wprocesses (transient m))"

definition pid :: "env \<Rightarrow> nat" where
  "pid e = getpid e"

text \<open>
  \<open>_all_workers_ack\<close>: the list \<open>acked\<close> has one boolean for each record of the table
  whose \<open>server\<close> entry is truthy.
\<close>

definition all_workers_ack :: "env \<Rightarrow> manager \<Rightarrow> bool" where
  "all_workers_ack e m =
     (let acked = map (\<lambda>ws. dict_get ws ''state'' = PStr (ACKED_name e))
                      (filter (\<lambda>ws. truthy (dict_get ws ''server''))
                              (map snd (worker_state m)))
      in list_all id acked \<and> int (length acked) = num_server m)"

subsection \<open>Construction\<close>

definition digit_char :: "nat \<Rightarrow> char" where
  "digit_char d = char_of (48 + d)"

text \<open>The decimal numeral of a natural number, as \<open>str(i)\<close> in an f-string.\<close>

fun str_of_nat :: "nat \<Rightarrow> string" where
  "str_of_nat n =
     (if n < 10 then [digit_char n] else str_of_nat (n div 10) @ [digit_char (n mod 10)])"

text \<open>
  \<open>manage\<close> appends a new worker to one of the two lists. The arguments \<open>func\<close>,
  \<open>kwargs\<close> and the context are only handed on to the constructor.
\<close>

definition manage :: "env \<Rightarrow> string \<Rightarrow> bool \<Rightarrow> manager \<Rightarrow> manager" where
  "manage e ident is_transient m =
     (let (w, tbl) = Worker e ident (worker_state m)
      in if is_transient
         then m\<lparr>transient := transient m @ [w], worker_state := tbl\<rparr>
         else m\<lparr>durable := durable m @ [w], worker_state := tbl\<rparr>)"

text \<open>
  \<open>__init__\<close>, given the number of workers and the shared table. The fields are set and
  the table is written before the number is checked; when the check raises, the second
  component is the object as far as it was built, with the table as it was left.
\<close>

definition WorkerManager_init :: "env \<Rightarrow> int \<Rightarrow> table \<Rightarrow> outcome \<times> manager" where
  "WorkerManager_init e number tbl =
     (let m0 = \<lparr>num_server = number, transient = [], durable = [],
                worker_state = AList.update ''Sanic-Main'' [(''pid'', PInt (int (pid e)))] tbl,
                terminated = False, effects = []\<rparr>
      in if number = 0 then (Raised (RuntimeError ''Cannot serve with no workers''), m0)
         else
           let m1 = fold (\<lambda>i. manage e (SERVER_LABEL e @ ''-'' @ str_of_nat i) True)
                         [0..<nat number] m0
           in (Returned,
               m1\<lparr>effects := effects m1 @ [InstallHandler SIGINT, InstallHandler SIGTERM]\<rparr>))"

subsection \<open>Calls on every process\<close>

text \<open>
  A loop \<open>for process in self.processes\<close> whose body calls a method of the process:
  the method's effect replaces the process where it stands.
\<close>

definition on_worker :: "(process \<Rightarrow> process) \<Rightarrow> worker \<Rightarrow> worker" where
  "on_worker f w = w\<lparr>wprocesses := map f (wprocesses w)\<rparr>"

definition each_process :: "(process \<Rightarrow> process) \<Rightarrow> manager \<Rightarrow> manager" where
  "each_process f m =
     m\<lparr>transient := map (on_worker f) (transient m),
       durable := map (on_worker f) (durable m)\<rparr>"

definition start :: "env \<Rightarrow> manager \<Rightarrow> outcome \<times> manager" where
  "start e m =
     (Returned,
      (each_process (process_start e) m)
        \<lparr>effects := effects m @ map (\<lambda>p. Start (ppid p)) (processes m)\<rparr>)"

text \<open>
  One pass of \<open>join\<close>: the processes below \<open>JOINED\<close> are joined, and their pids are
  collected in \<open>joined\<close>.
\<close>

definition joined_pids :: "env \<Rightarrow> manager \<Rightarrow> nat list" where
  "joined_pids e m = map ppid (filter (\<lambda>p. pstate p < JOINED e) (processes m))"

definition join_pass :: "env \<Rightarrow> manager \<Rightarrow> manager" where
  "join_pass e m =
     (each_process (\<lambda>p. if pstate p < JOINED e then process_join e p else p) m)
       \<lparr>effects := effects m @ map Join (joined_pids e m)\<rparr>"

text \<open>\<open>join\<close> calls itself while a pass joined something; it is \<open>None\<close> when that never ends.\<close>

partial_function (option) join :: "env \<Rightarrow> manager \<Rightarrow> (outcome \<times> manager) option" where
  "join e m =
     (if joined_pids e m \<noteq> [] then join e (join_pass e m)
      else Some (Returned, join_pass e m))"

declare join.simps [code]

definition terminate :: "env \<Rightarrow> manager \<Rightarrow> outcome \<times> manager" where
  "terminate e m =
     (Returned,
      (if \<not> terminated m
       then (each_process (process_terminate e) m)
              \<lparr>effects := effects m @ map (\<lambda>p. Terminate (ppid p)) (processes m)\<rparr>
       else m)\<lparr>terminated := True\<rparr>)"

text \<open>\<open>not process_names or process.name in process_names\<close>.\<close>

definition name_matches :: "string list option \<Rightarrow> process \<Rightarrow> bool" where
  "name_matches process_names p =
     (case process_names of
        None \<Rightarrow> True
      | Some names \<Rightarrow> names = [] \<or> pname p \<in> set names)"

definition restart :: "env \<Rightarrow> string list option \<Rightarrow> kwargs \<Rightarrow> manager \<Rightarrow> manager" where
  "restart e process_names kw m =
     m\<lparr>transient :=
         map (on_worker (\<lambda>p. if name_matches process_names p then process_restart e kw p else p))
             (transient m),
       effects := effects m @
         map (\<lambda>p. Restart (ppid p) kw)
             (filter (name_matches process_names) (transient_processes m))\<rparr>"

definition kill :: "env \<Rightarrow> manager \<Rightarrow> outcome \<times> manager" where
  "kill e m =
     (Raised ServerKilled,
      m\<lparr>effects := effects m @
          concat (map (\<lambda>p. [LogKilling (pname p) (ppid p), OsKill (ppid p) (SIGKILL_const e)])
                      (processes m))\<rparr>)"

definition shutdown :: "env \<Rightarrow> manager \<Rightarrow> manager" where
  "shutdown e m =
     (each_process (\<lambda>p. if process_is_alive e p then process_terminate e p else p) m)
       \<lparr>effects := effects m @
          map (\<lambda>p. Terminate (ppid p)) (filter (process_is_alive e) (processes m))\<rparr>"

definition shutdown_signal :: "env \<Rightarrow> signal \<Rightarrow> manager \<Rightarrow> manager" where
  "shutdown_signal e sig m = shutdown e (m\<lparr>effects := effects m @ [LogSignal sig, Send None]\<rparr>)"

subsection \<open>The control channel\<close>

text \<open>
  What one \<open>poll(0.1)\<close> of the subscriber gives: nothing, a message (\<open>None\<close> or a string)
  that \<open>recv()\<close> then returns, or \<open>InterruptedError\<close>.
\<close>

datatype polled = NoMessage | Message "string option" | Interrupted

text \<open>\<open>str.isspace\<close> on one code point, \<open>str.strip()\<close>, \<open>str.split(sep)\<close> and \<open>str.split(sep, 1)\<close>.\<close>

definition is_space :: "char \<Rightarrow> bool" where
  "is_space c = ((of_char c :: nat) \<in> {9, 10, 11, 12, 13, 28, 29, 30, 31, 32, 133, 160})"

definition strip :: "string \<Rightarrow> string" where
  "strip s = rev (dropWhile is_space (rev (dropWhile is_space s)))"

fun split :: "char \<Rightarrow> string \<Rightarrow> string list" where
  "split sep [] = [[]]"
| "split sep (c # cs) =
     (if c = sep then [] # split sep cs
      else case split sep cs of
             [] \<Rightarrow> [[c]]
           | part # parts \<Rightarrow> (c # part) # parts)"

definition split1 :: "char \<Rightarrow> string \<Rightarrow> string list" where
  "split1 sep s =
     (if sep \<in> set s
      then [takeWhile (\<lambda>c. c \<noteq> sep) s, tl (dropWhile (\<lambda>c. c \<noteq> sep) s)]
      else [s])"

subsection \<open>The startup barrier\<close>

definition slow_message :: string where
  "slow_message =
     ''It seems that one or more of your workers failed to come '' @
     ''online in the allowed time. Sanic is shutting down to avoid a '' @
     ''deadlock. The current threshold is 30.0s. '' @
     ''If this problem persists, please check out the documentation '' @
     ''___.''"

definition early_message :: string where
  "early_message =
     ''One of your worker processes terminated before startup '' @
     ''was completed. Please solve any errors experienced '' @
     ''during startup. If you do not see an exception traceback '' @
     ''in your error logs, try running Sanic in in a single '' @
     ''process using --single-process or single_process=True. '' @
     ''Once you are confident that the server is able to start '' @
     ''without errors you can switch back to multiprocess mode.''"

definition shutting_down :: "string \<Rightarrow> string" where
  "shutting_down message =
     ''Not all workers acknowledged a successful startup. '' @
     ''Shutting down.'' @ [CHR 0x0A, CHR 0x0A] @ message"

text \<open>
  The end of a round of \<open>wait_for_ack\<close>, after \<open>misses += 1\<close>: above the threshold
  the error is logged and \<open>kill\<close> is called.
\<close>

definition check_misses :: "env \<Rightarrow> nat \<Rightarrow> string \<Rightarrow> manager \<Rightarrow> outcome \<times> manager" where
  "check_misses e misses message m =
     (if misses > THRESHOLD
      then kill e (m\<lparr>effects := effects m @ [LogError (shutting_down message)]\<rparr>)
      else (Returned, m))"

text \<open>
  The loop of \<open>wait_for_ack\<close>. Each round reads the shared table, which the workers
  write from their own processes, and then polls the channel unless the quorum holds:
  the list gives, round by round, the table as it is read and what the poll delivers.
\<close>

fun wait_for_ack_loop ::
  "env \<Rightarrow> (table \<times> polled) list \<Rightarrow> nat \<Rightarrow> string \<Rightarrow> manager \<Rightarrow> outcome \<times> manager" where
  "wait_for_ack_loop e [] misses message m = (Polling, m)"
| "wait_for_ack_loop e ((tbl, p) # rounds) misses message m =
     (let m = m\<lparr>worker_state := tbl\<rparr>
      in if all_workers_ack e m then (Returned, m)
         else case p of
           Interrupted \<Rightarrow> (Raised InterruptedError, m)
         | NoMessage \<Rightarrow>
             (case check_misses e (misses + 1) message m of
                (Returned, m) \<Rightarrow> wait_for_ack_loop e rounds (misses + 1) message m
              | r \<Rightarrow> r)
         | Message monitor_msg \<Rightarrow>
             if monitor_msg \<noteq> Some ''__TERMINATE_EARLY__''
             then wait_for_ack_loop e rounds misses message
                    (m\<lparr>effects := effects m @ [Send monitor_msg]\<rparr>)
             else
               (case check_misses e (THRESHOLD + 1) early_message m of
                  (Returned, m) \<Rightarrow> wait_for_ack_loop e rounds (THRESHOLD + 1) early_message m
                | r \<Rightarrow> r))"

definition wait_for_ack :: "env \<Rightarrow> (table \<times> polled) list \<Rightarrow> manager \<Rightarrow> outcome \<times> manager" where
  "wait_for_ack e rounds m = wait_for_ack_loop e rounds 0 slow_message m"

subsection \<open>The command loop\<close>

text \<open>The names and the payload that \<open>monitor\<close> reads out of a message.\<close>

definition process_names_of :: "string \<Rightarrow> string list option" where
  "process_names_of message =
     (let split_message = split1 (CHR '':'') message;
          processes = hd split_message;
          process_names = map strip (split (CHR '','') processes)
      in if ''__ALL_PROCESSES__'' \<in> set process_names then None else Some process_names)"

definition reloaded_files_of :: "string \<Rightarrow> string option" where
  "reloaded_files_of message =
     (let split_message = split1 (CHR '':'') message
      in if length split_message > 1 then Some (split_message ! 1) else None)"

fun monitor_loop :: "env \<Rightarrow> polled list \<Rightarrow> manager \<Rightarrow> outcome \<times> manager" where
  "monitor_loop e [] m = (Polling, m)"
| "monitor_loop e (NoMessage # polls) m = monitor_loop e polls m"
| "monitor_loop e (Interrupted # polls) m =
     (if \<not> OS_IS_WINDOWS e then (Raised InterruptedError, m) else (Returned, m))"
| "monitor_loop e (Message message # polls) m =
     (case message of
        None \<Rightarrow> (Returned, m)
      | Some s \<Rightarrow>
          if s = [] then (Returned, m)
          else if s = ''__TERMINATE__'' then (Returned, shutdown e m)
          else monitor_loop e polls
                 (restart e (process_names_of s) [(''reloaded_files'', reloaded_files_of s)] m))"

definition monitor ::
  "env \<Rightarrow> (table \<times> polled) list \<Rightarrow> polled list \<Rightarrow> manager \<Rightarrow> outcome \<times> manager" where
  "monitor e rounds polls m =
     (case wait_for_ack e rounds m of
        (Returned, m) \<Rightarrow> monitor_loop e polls m
      | r \<Rightarrow> r)"

subsection \<open>The run sequence\<close>

definition run ::
  "env \<Rightarrow> (table \<times> polled) list \<Rightarrow> polled list \<Rightarrow> manager \<Rightarrow> (outcome \<times> manager) option" where
  "run e rounds polls m =
     (case start e m of
        (Returned, m) \<Rightarrow>
          (case monitor e rounds polls m of
             (Returned, m) \<Rightarrow>
               (case join e m of
                  None \<Rightarrow> None
                | Some (Returned, m) \<Rightarrow> Some (terminate e m)
                | Some r \<Rightarrow> Some r)
           | r \<Rightarrow> Some r)
      | r \<Rightarrow> Some r)"

subsection \<open>A concrete configuration\<close>

text \<open>
  An instance of the collaborators on which the operations can be run: a worker has one
  process, named after it, whose record in the shared table carries the \<open>server\<close> flag
  when the name starts with the server label; the ranks of \<open>ProcessState\<close> are
  \<open>STARTED = 3\<close>, \<open>ACKED = 4\<close>, \<open>JOINED = 5\<close> and \<open>TERMINATED = 6\<close>, and a process
  is alive from its start until it is joined or terminated.
\<close>

definition posix :: env where
  "posix =
     \<lparr>OS_IS_WINDOWS = False, SERVER_LABEL = ''Server'', ACKED_name = ''ACKED'',
      JOINED = 5, getpid = 100,
      Worker = (\<lambda>ident tbl.
        (\<lparr>wname = ident,
          wprocesses = [\<lparr>pname = ident @ ''-0'', ppid = 100 + length tbl, pstate = 0\<rparr>]\<rparr>,
         AList.update (ident @ ''-0'') [(''server'', PBool (take 6 ident = ''Server''))] tbl)),
      process_start = (\<lambda>p. p\<lparr>pstate := 3\<rparr>),
      process_join = (\<lambda>p. p\<lparr>pstate := 5\<rparr>),
      process_terminate = (\<lambda>p. p\<lparr>pstate := 6\<rparr>),
      process_restart = (\<lambda>kw p. p\<lparr>pstate := 1\<rparr>),
      process_is_alive = (\<lambda>p. 3 \<le> pstate p \<and> pstate p < 5)\<rparr>"

text \<open>Two servers and a durable reloader, before and after \<open>start\<close>.\<close>

definition two_servers :: manager where
  "two_servers = manage posix ''Reloader'' False (snd (WorkerManager_init posix 2 []))"

definition two_started :: manager where
  "two_started = snd (start posix two_servers)"

text \<open>The shared table when the given servers have acknowledged.\<close>

definition acked_table :: "string list \<Rightarrow> table" where
  "acked_table names =
     (''Sanic-Main'', [(''pid'', PInt 100)]) #
     map (\<lambda>n. (n, [(''server'', PBool True), (''state'', PStr ''ACKED'')])) names"

subsection \<open>The server count\<close>

text \<open>
  An operation that takes the manager from \<open>m\<close> to \<open>m'\<close> keeps the count when it changes
  neither \<open>num_server\<close> nor the number of transient workers.
\<close>

definition keeps_count :: "manager \<Rightarrow> manager \<Rightarrow> bool" where
  "keeps_count m m' \<longleftrightarrow>
     num_server m' = num_server m \<and> length (transient m') = length (transient m)"

section \<open>Properties\<close>

subsection \<open>Facts about the loops over processes\<close>

lemma processes_each_process: "processes (each_process f m) = map f (processes m)"
  by (simp add: processes_def workers_def each_process_def on_worker_def map_concat comp_def)

lemma each_process_fields:
  "num_server (each_process f m) = num_server m"
  "worker_state (each_process f m) = worker_state m"
  "terminated (each_process f m) = terminated m"
  "effects (each_process f m) = effects m"
  "length (transient (each_process f m)) = length (transient m)"
  "length (durable (each_process f m)) = length (durable m)"
  by (simp_all add: each_process_def)

lemma each_process_id:
  assumes "\<And>p. p \<in> set (processes m) \<Longrightarrow> f p = p"
  shows "each_process f m = m"
proof -
  have "on_worker f w = w" if "w \<in> set (transient m) \<or> w \<in> set (durable m)" for w
  proof -
    have "\<And>p. p \<in> set (wprocesses w) \<Longrightarrow> f p = p"
      using that assms by (auto simp: processes_def workers_def)
    then have "map f (wprocesses w) = wprocesses w"
      by (simp add: map_idI)
    then show ?thesis by (simp add: on_worker_def)
  qed
  then have "map (on_worker f) (transient m) = transient m"
    and "map (on_worker f) (durable m) = durable m"
    by (simp_all add: map_idI)
  then show ?thesis by (simp add: each_process_def)
qed

subsection \<open>The quorum predicate\<close>

text \<open>
  Claim C1. \<open>_all_workers_ack\<close> is true exactly when every record of the shared table
  whose \<open>server\<close> flag is set has the state name \<open>ACKED\<close> and the number of such records
  equals \<open>num_server\<close>; so it is false when a flagged record has another state or none,
  and when the number of flagged records differs from \<open>num_server\<close> although all of
  them are acknowledged. A record that only carries a pid, as the manager's own, is not
  counted wherever it stands in the table.
\<close>

theorem all_workers_ack_quorum:
  "(all_workers_ack e m \<longleftrightarrow>
      (\<forall>ws \<in> set (map snd (worker_state m)).
          truthy (dict_get ws ''server'') \<longrightarrow> dict_get ws ''state'' = PStr (ACKED_name e))
      \<and> int (length (filter (\<lambda>ws. truthy (dict_get ws ''server'')) (map snd (worker_state m))))
          = num_server m)
   \<and> all_workers_ack e (m\<lparr>worker_state := before @ (key, [(''pid'', v)]) # after\<rparr>)
       = all_workers_ack e (m\<lparr>worker_state := before @ after\<rparr>)"
  by (auto simp: all_workers_ack_def Let_def list_all_iff dict_get_def)

subsection \<open>The concrete configuration, evaluated\<close>

lemma two_servers_eq:
  "two_servers =
     \<lparr>num_server = 2,
      transient =
        [\<lparr>wname = ''Server-0'',
          wprocesses = [\<lparr>pname = ''Server-0-0'', ppid = 101, pstate = 0\<rparr>]\<rparr>,
         \<lparr>wname = ''Server-1'',
          wprocesses = [\<lparr>pname = ''Server-1-0'', ppid = 102, pstate = 0\<rparr>]\<rparr>],
      durable =
        [\<lparr>wname = ''Reloader'',
          wprocesses = [\<lparr>pname = ''Reloader-0'', ppid = 103, pstate = 0\<rparr>]\<rparr>],
      worker_state =
        [(''Sanic-Main'', [(''pid'', PInt 100)]),
         (''Server-0-0'', [(''server'', PBool True)]),
         (''Server-1-0'', [(''server'', PBool True)]),
         (''Reloader-0'', [(''server'', PBool False)])],
      terminated = False,
      effects = [InstallHandler SIGINT, InstallHandler SIGTERM]\<rparr>"
  by code_simp

lemma two_started_eq:
  "two_started =
     \<lparr>num_server = 2,
      transient =
        [\<lparr>wname = ''Server-0'',
          wprocesses = [\<lparr>pname = ''Server-0-0'', ppid = 101, pstate = 3\<rparr>]\<rparr>,
         \<lparr>wname = ''Server-1'',
          wprocesses = [\<lparr>pname = ''Server-1-0'', ppid = 102, pstate = 3\<rparr>]\<rparr>],
      durable =
        [\<lparr>wname = ''Reloader'',
          wprocesses = [\<lparr>pname = ''Reloader-0'', ppid = 103, pstate = 3\<rparr>]\<rparr>],
      worker_state =
        [(''Sanic-Main'', [(''pid'', PInt 100)]),
         (''Server-0-0'', [(''server'', PBool True)]),
         (''Server-1-0'', [(''server'', PBool True)]),
         (''Reloader-0'', [(''server'', PBool False)])],
      terminated = False,
      effects = [InstallHandler SIGINT, InstallHandler SIGTERM, Start 101, Start 102, Start 103]\<rparr>"
  by code_simp

lemma posix_fields:
  "OS_IS_WINDOWS posix = False" "SERVER_LABEL posix = ''Server''" "ACKED_name posix = ''ACKED''"
  "JOINED posix = 5" "getpid posix = 100"
  "process_start posix p = p\<lparr>pstate := 3\<rparr>"
  "process_join posix p = p\<lparr>pstate := 5\<rparr>"
  "process_terminate posix p = p\<lparr>pstate := 6\<rparr>"
  "process_restart posix kw p = p\<lparr>pstate := 1\<rparr>"
  "process_is_alive posix p = (3 \<le> pstate p \<and> pstate p < 5)"
  by (simp_all add: posix_def)

text \<open>
  With two servers expected: both acknowledged, only one registered and acknowledged,
  and one of the two still starting.
\<close>

theorem all_workers_ack_quorum_witness:
  "all_workers_ack posix (two_servers\<lparr>worker_state := acked_table [''Server-0-0'', ''Server-1-0'']\<rparr>)
   \<and> \<not> all_workers_ack posix (two_servers\<lparr>worker_state := acked_table [''Server-0-0'']\<rparr>)
   \<and> \<not> all_workers_ack posix (two_servers\<lparr>worker_state :=
          (''Server-1-0'', [(''server'', PBool True), (''state'', PStr ''STARTED'')])
          # acked_table [''Server-0-0'']\<rparr>)"
  using all_workers_ack_quorum [of posix
      "two_servers\<lparr>worker_state := acked_table [''Server-0-0'', ''Server-1-0'']\<rparr>"]
    all_workers_ack_quorum [of posix
      "two_servers\<lparr>worker_state := acked_table [''Server-0-0'']\<rparr>"]
    all_workers_ack_quorum [of posix
      "two_servers\<lparr>worker_state :=
          (''Server-1-0'', [(''server'', PBool True), (''state'', PStr ''STARTED'')])
          # acked_table [''Server-0-0'']\<rparr>"]
  by (simp add: two_servers_eq posix_fields acked_table_def dict_get_def)


subsection \<open>Construction\<close>




subsection \<open>The number of transient workers\<close>

lemma manage_fields:
  "num_server (manage e ident t m) = num_server m"
  "terminated (manage e ident t m) = terminated m"
  "effects (manage e ident t m) = effects m"
  "length (transient (manage e ident t m)) = length (transient m) + (if t then 1 else 0)"
  "length (durable (manage e ident t m)) = length (durable m) + (if t then 0 else 1)"
  by (simp_all add: manage_def split: prod.splits)

lemma fold_manage_transient:
  "num_server (fold (\<lambda>i. manage e (f i) True) is m) = num_server m
   \<and> effects (fold (\<lambda>i. manage e (f i) True) is m) = effects m
   \<and> length (transient (fold (\<lambda>i. manage e (f i) True) is m)) = length (transient m) + length is
   \<and> length (durable (fold (\<lambda>i. manage e (f i) True) is m)) = length (durable m)"
  by (induction "is" arbitrary: m) (simp_all add: manage_fields)

lemma keeps_count_refl: "keeps_count m m"
  by (simp add: keeps_count_def)

lemma keeps_count_trans: "keeps_count m m' \<Longrightarrow> keeps_count m' m'' \<Longrightarrow> keeps_count m m''"
  by (simp add: keeps_count_def)

lemma keeps_count_fields:
  "keeps_count m (m'\<lparr>effects := x\<rparr>) = keeps_count m m'"
  "keeps_count m (m'\<lparr>worker_state := t\<rparr>) = keeps_count m m'"
  "keeps_count m (m'\<lparr>terminated := b\<rparr>) = keeps_count m m'"
  "keeps_count m (each_process f m') = keeps_count m m'"
  by (simp_all add: keeps_count_def each_process_def)

lemma keeps_count_start: "keeps_count m (snd (start e m))"
  by (simp add: start_def keeps_count_fields keeps_count_refl)

lemma keeps_count_terminate: "keeps_count m (snd (terminate e m))"
  by (simp add: terminate_def keeps_count_fields keeps_count_refl)

lemma keeps_count_restart: "keeps_count m (restart e names kw m)"
  by (simp add: restart_def keeps_count_def)

lemma keeps_count_kill: "keeps_count m (snd (kill e m))"
  by (simp add: kill_def keeps_count_fields keeps_count_refl)

lemma keeps_count_shutdown: "keeps_count m (shutdown e m)"
  by (simp add: shutdown_def keeps_count_fields keeps_count_refl)

lemma keeps_count_shutdown_signal: "keeps_count m (shutdown_signal e sig m)"
  by (simp add: shutdown_signal_def shutdown_def keeps_count_fields keeps_count_refl)

lemma keeps_count_join_pass: "keeps_count m (join_pass e m)"
  by (simp add: join_pass_def keeps_count_fields keeps_count_refl)

lemma keeps_count_join:
  assumes "join e m = Some r"
  shows "keeps_count m (snd r)"
proof (rule join.raw_induct [where P = "\<lambda>e m r. keeps_count m (snd r)" and e = e and m = m and y = r])
  show "join e m = Some r" by fact
next
  fix j e m r
  assume IH: "\<And>e' m' r'. j e' m' = Some r' \<Longrightarrow> keeps_count m' (snd r')"
    and eq: "(if joined_pids e m \<noteq> [] then j e (join_pass e m)
              else Some (Returned, join_pass e m)) = Some r"
  show "keeps_count m (snd r)"
  proof (cases "joined_pids e m \<noteq> []")
    case True
    with eq IH have "keeps_count (join_pass e m) (snd r)" by simp
    then show ?thesis using keeps_count_join_pass keeps_count_trans by blast
  next
    case False
    with eq show ?thesis by (auto simp: keeps_count_join_pass)
  qed
qed

lemma keeps_count_check_misses: "keeps_count m (snd (check_misses e n msg m))"
  by (simp add: check_misses_def kill_def keeps_count_fields keeps_count_refl)

lemma keeps_count_wait_for_ack_loop:
  "keeps_count m (snd (wait_for_ack_loop e rounds misses msg m))"
proof (induction rounds arbitrary: misses msg m)
  case Nil
  show ?case by (simp add: keeps_count_refl)
next
  case (Cons r rounds)
  obtain tbl p where r: "r = (tbl, p)" by (cases r)
  have step: "keeps_count m (snd (wait_for_ack_loop e rounds n s m'))"
    if "keeps_count m m'" for n s m'
    using that Cons.IH keeps_count_trans by blast
  have cm: "keeps_count m (snd (check_misses e n s (m\<lparr>worker_state := tbl\<rparr>)))" for n s
    using keeps_count_check_misses [of "m\<lparr>worker_state := tbl\<rparr>" e n s]
    by (simp add: keeps_count_def)
  show ?case
  proof (cases p)
    case NoMessage
    show ?thesis
    proof (cases "check_misses e (misses + 1) msg (m\<lparr>worker_state := tbl\<rparr>)")
      case (Pair out m')
      with cm [of "misses + 1" msg] have "keeps_count m m'" by simp
      with Pair r NoMessage show ?thesis
        by (cases out) (simp_all add: Let_def step keeps_count_fields keeps_count_refl)
    qed
  next
    case Interrupted
    with r show ?thesis by (simp add: Let_def keeps_count_fields keeps_count_refl)
  next
    case (Message x)
    show ?thesis
    proof (cases "check_misses e (THRESHOLD + 1) early_message (m\<lparr>worker_state := tbl\<rparr>)")
      case (Pair out m')
      with cm [of "THRESHOLD + 1" early_message] have "keeps_count m m'" by simp
      with Pair r Message show ?thesis
        by (cases out) (simp_all add: Let_def step keeps_count_fields keeps_count_refl)
    qed
  qed
qed

lemma keeps_count_monitor_loop: "keeps_count m (snd (monitor_loop e polls m))"
proof (induction e polls m rule: monitor_loop.induct)
  case (4 e message polls m)
  show ?case
  proof (cases message)
    case None
    then show ?thesis by (simp add: keeps_count_refl)
  next
    case (Some s)
    show ?thesis
    proof (cases "s = [] \<or> s = ''__TERMINATE__''")
      case True
      with Some show ?thesis by (auto simp: keeps_count_refl keeps_count_shutdown)
    next
      case False
      with Some 4 have "keeps_count
          (restart e (process_names_of s) [(''reloaded_files'', reloaded_files_of s)] m)
          (snd (monitor_loop e (Message message # polls) m))"
        by simp
      then show ?thesis using keeps_count_restart keeps_count_trans by blast
    qed
  qed
qed (simp_all add: keeps_count_refl)

lemma keeps_count_monitor: "keeps_count m (snd (monitor e rounds polls m))"
proof (cases "wait_for_ack e rounds m")
  case (Pair out m')
  then have "keeps_count m m'"
    using keeps_count_wait_for_ack_loop [of m e rounds 0 slow_message]
    by (simp add: wait_for_ack_def)
  with Pair show ?thesis
    by (cases out) (auto simp: monitor_def intro: keeps_count_trans keeps_count_monitor_loop)
qed

lemma keeps_count_run: "run e rounds polls m = Some r \<Longrightarrow> keeps_count m (snd r)"
proof -
  assume run: "run e rounds polls m = Some r"
  define m1 where "m1 = snd (start e m)"
  have s: "start e m = (Returned, m1)" by (simp add: m1_def start_def)
  have k1: "keeps_count m m1" by (simp add: m1_def keeps_count_start)
  obtain out m2 where mon: "monitor e rounds polls m1 = (out, m2)" by (cases "monitor e rounds polls m1")
  have k2: "keeps_count m m2"
    using keeps_count_monitor [of m1 e rounds polls] mon k1 keeps_count_trans by fastforce
  show ?thesis
  proof (cases out)
    case Returned
    with run s mon obtain j where j: "join e m2 = Some j" 
      by (auto simp: run_def split: option.splits)
    obtain jo m3 where jm: "j = (jo, m3)" by (cases j)
    have k3: "keeps_count m m3"
      using keeps_count_join [OF j] jm k2 keeps_count_trans by fastforce
    show ?thesis
    proof (cases jo)
      case Returned
      with run s mon j jm \<open>out = Returned\<close> have "r = terminate e m3"
        by (simp add: run_def)
      then show ?thesis using keeps_count_terminate k3 keeps_count_trans by blast
    next
      case (Raised x)
      with run s mon j jm \<open>out = Returned\<close> have "r = (jo, m3)" by (simp add: run_def)
      then show ?thesis using k3 by simp
    next
      case Polling
      with run s mon j jm \<open>out = Returned\<close> have "r = (jo, m3)" by (simp add: run_def)
      then show ?thesis using k3 by simp
    qed
  next
    case (Raised x)
    with run s mon have "r = (out, m2)" by (simp add: run_def)
    then show ?thesis using k2 by simp
  next
    case Polling
    with run s mon have "r = (out, m2)" by (simp add: run_def)
    then show ?thesis using k2 by simp
  qed
qed

text \<open>
  Claim C3, as amended. For every \<open>N \<ge> 1\<close> construction returns with exactly \<open>N\<close>
  transient workers, no durable worker and \<open>num_server\<close> equal to the number of
  transient workers. \<open>manage\<close> with \<open>transient=False\<close> and every other operation keep
  both numbers; \<open>manage\<close> with \<open>transient=True\<close> adds a transient worker and leaves
  \<open>num_server\<close> as it is.
\<close>

theorem server_count_kept:
  assumes "1 \<le> N"
  shows "(fst (WorkerManager_init e N tbl) = Returned
          \<and> length (transient (snd (WorkerManager_init e N tbl))) = nat N
          \<and> durable (snd (WorkerManager_init e N tbl)) = []
          \<and> num_server (snd (WorkerManager_init e N tbl))
              = int (length (transient (snd (WorkerManager_init e N tbl)))))
       \<and> keeps_count m (manage e ident False m)
       \<and> keeps_count m (snd (start e m))
       \<and> keeps_count m (snd (wait_for_ack e rounds m))
       \<and> keeps_count m (snd (monitor e rounds polls m))
       \<and> keeps_count m (restart e names kw m)
       \<and> (\<forall>r. join e m = Some r \<longrightarrow> keeps_count m (snd r))
       \<and> keeps_count m (snd (terminate e m))
       \<and> keeps_count m (snd (kill e m))
       \<and> keeps_count m (shutdown e m)
       \<and> keeps_count m (shutdown_signal e sig m)
       \<and> (\<forall>r. run e rounds polls m = Some r \<longrightarrow> keeps_count m (snd r))
       \<and> num_server (manage e ident True m) = num_server m
       \<and> length (transient (manage e ident True m)) = length (transient m) + 1"
proof -
  let ?m0 = "\<lparr>num_server = N, transient = [], durable = [],
              worker_state = AList.update ''Sanic-Main'' [(''pid'', PInt (int (pid e)))] tbl,
              terminated = False, effects = []\<rparr>"
  let ?f = "\<lambda>i. SERVER_LABEL e @ ''-'' @ str_of_nat i"
  have init: "WorkerManager_init e N tbl =
      (Returned, (fold (\<lambda>i. manage e (?f i) True) [0..<nat N] ?m0)
         \<lparr>effects := effects (fold (\<lambda>i. manage e (?f i) True) [0..<nat N] ?m0)
            @ [InstallHandler SIGINT, InstallHandler SIGTERM]\<rparr>)"
    using assms by (simp add: WorkerManager_init_def Let_def)
  have a: "fst (WorkerManager_init e N tbl) = Returned
          \<and> length (transient (snd (WorkerManager_init e N tbl))) = nat N
          \<and> durable (snd (WorkerManager_init e N tbl)) = []
          \<and> num_server (snd (WorkerManager_init e N tbl))
              = int (length (transient (snd (WorkerManager_init e N tbl))))"
    using assms fold_manage_transient [of e ?f "[0..<nat N]" ?m0]
    by (simp add: init)
  have b: "keeps_count m (manage e ident False m)"
    by (simp add: keeps_count_def manage_fields)
  have c: "keeps_count m (snd (wait_for_ack e rounds m))"
    by (simp add: wait_for_ack_def keeps_count_wait_for_ack_loop)
  show ?thesis
    using a b c keeps_count_start keeps_count_monitor keeps_count_restart keeps_count_join
      keeps_count_terminate keeps_count_kill keeps_count_shutdown keeps_count_shutdown_signal
      keeps_count_run
    by (simp add: manage_fields)
qed

theorem server_count_kept_witness:
  "(1::int) \<le> 2
   \<and> fst (WorkerManager_init posix 2 []) = Returned
   \<and> length (transient (snd (WorkerManager_init posix 2 []))) = 2
   \<and> durable (snd (WorkerManager_init posix 2 [])) = []
   \<and> keeps_count two_servers (manage posix ''Watcher'' False two_servers)
   \<and> keeps_count two_servers (snd (start posix two_servers))
   \<and> length (transient (manage posix ''Server-2'' True two_servers)) = 3"
  using server_count_kept [of 2 posix "[]" two_servers "''Watcher''" "[]" "[]" None "[]" SIGINT]
    server_count_kept [of 2 posix "[]" two_servers "''Server-2''" "[]" "[]" None "[]" SIGINT]
  by (simp add: two_servers_eq)

text \<open>
  The claim as stated has the equality kept by every operation, \<open>manage\<close> included:
  it holds of the two servers, and fails after \<open>manage\<close> with \<open>transient=True\<close>.
\<close>

theorem server_count_manage_counterexample:
  "num_server two_servers = int (length (transient two_servers))
   \<and> num_server (manage posix ''Server-2'' True two_servers)
       \<noteq> int (length (transient (manage posix ''Server-2'' True two_servers)))"
  by (simp add: two_servers_eq manage_def split: prod.splits)

subsection \<open>Terminate, restart and shutdown\<close>

lemma processes_fields:
  "processes (m\<lparr>effects := x\<rparr>) = processes m"
  "processes (m\<lparr>worker_state := t\<rparr>) = processes m"
  "processes (m\<lparr>terminated := b\<rparr>) = processes m"
  by (simp_all add: processes_def workers_def)

lemma terminate_again:
  "terminated m \<Longrightarrow> terminate e m = (Returned, m)"
  by (simp add: terminate_def)

lemma terminated_join_pass: "terminated (join_pass e m) = terminated m"
  by (simp add: join_pass_def each_process_fields)

lemma terminated_join:
  assumes "join e m = Some r"
  shows "terminated (snd r) = terminated m"
proof (rule join.raw_induct [where P = "\<lambda>e m r. terminated (snd r) = terminated m"
      and e = e and m = m and y = r])
  show "join e m = Some r" by fact
next
  fix j e m r
  assume IH: "\<And>e' m' r'. j e' m' = Some r' \<Longrightarrow> terminated (snd r') = terminated m'"
    and eq: "(if joined_pids e m \<noteq> [] then j e (join_pass e m)
              else Some (Returned, join_pass e m)) = Some r"
  show "terminated (snd r) = terminated m"
  proof (cases "joined_pids e m \<noteq> []")
    case True
    with eq IH have "terminated (snd r) = terminated (join_pass e m)" by simp
    then show ?thesis by (simp add: terminated_join_pass)
  next
    case False
    with eq show ?thesis by (auto simp: terminated_join_pass)
  qed
qed

lemma terminated_wait_for_ack_loop:
  "terminated (snd (wait_for_ack_loop e rounds misses msg m)) = terminated m"
proof (induction rounds arbitrary: misses msg m)
  case Nil
  show ?case by simp
next
  case (Cons r rounds)
  obtain tbl p where r: "r = (tbl, p)" by (cases r)
  show ?case
    by (cases p) (simp_all add: r Let_def check_misses_def kill_def Cons.IH)
qed

lemma terminated_monitor_loop:
  "terminated (snd (monitor_loop e polls m)) = terminated m"
proof (induction e polls m rule: monitor_loop.induct)
  case (4 e message polls m)
  have rs: "terminated (restart e ns kw m) = terminated m" for ns kw
    by (simp add: restart_def)
  have sh: "terminated (shutdown e m) = terminated m"
    by (simp add: shutdown_def each_process_fields)
  show ?case
  proof (cases message)
    case None
    then show ?thesis by simp
  next
    case (Some s)
    with 4 rs sh show ?thesis by simp
  qed
qed simp_all

lemma terminated_monitor:
  "terminated (snd (monitor e rounds polls m)) = terminated m"
proof (cases "wait_for_ack e rounds m")
  case (Pair out m')
  then have "terminated m' = terminated m"
    using terminated_wait_for_ack_loop [of e rounds 0 slow_message m]
    by (simp add: wait_for_ack_def)
  with Pair show ?thesis
    by (cases out) (simp_all add: monitor_def terminated_monitor_loop)
qed

lemma terminated_run:
  assumes "run e rounds polls m = Some r" and "terminated m"
  shows "terminated (snd r)"
proof -
  define m1 where "m1 = snd (start e m)"
  have s: "start e m = (Returned, m1)" and t1: "terminated m1"
    using assms(2) by (simp_all add: m1_def start_def each_process_fields)
  obtain out m2 where mon: "monitor e rounds polls m1 = (out, m2)"
    by (cases "monitor e rounds polls m1")
  have t2: "terminated m2"
    using terminated_monitor [of e rounds polls m1] mon t1 by simp
  show ?thesis
  proof (cases out)
    case Returned
    with assms(1) s mon obtain j where j: "join e m2 = Some j"
      by (auto simp: run_def split: option.splits)
    obtain jo m3 where jm: "j = (jo, m3)" by (cases j)
    have t3: "terminated m3"
      using terminated_join [OF j] jm t2 by simp
    show ?thesis
      using assms(1) s mon j jm Returned t3
      by (cases jo) (auto simp: run_def terminate_def)
  next
    case (Raised x)
    with assms(1) s mon t2 show ?thesis by (auto simp: run_def)
  next
    case Polling
    with assms(1) s mon t2 show ?thesis by (auto simp: run_def)
  qed
qed

text \<open>
  Claim C4, as amended. \<open>terminate\<close> returns without raising and leaves the flag
  \<open>terminated\<close> set. Called with the flag unset, it makes exactly one terminate request
  for each process the manager has at that call, in the order of \<open>processes\<close>; called
  with the flag set, it changes nothing, so any number of calls in a row make the
  requests of the first. No other operation changes the flag, so once it is set no
  later call of \<open>terminate\<close> makes a request. The guard covers the requests of
  \<open>terminate\<close> alone: those that \<open>shutdown\<close> makes and the processes managed after the
  first call are outside it.
\<close>

theorem terminate_guarded:
  "fst (terminate e m) = Returned
   \<and> terminated (snd (terminate e m))
   \<and> (\<not> terminated m \<longrightarrow>
        effects (snd (terminate e m))
          = effects m @ map (\<lambda>p. Terminate (ppid p)) (processes m))
   \<and> (terminated m \<longrightarrow> terminate e m = (Returned, m))
   \<and> ((\<lambda>m. snd (terminate e m)) ^^ Suc n) m = snd (terminate e m)
   \<and> terminated (manage e ident is_transient m) = terminated m
   \<and> terminated (snd (start e m)) = terminated m
   \<and> terminated (snd (wait_for_ack e rounds m)) = terminated m
   \<and> terminated (snd (monitor e rounds polls m)) = terminated m
   \<and> terminated (restart e names kw m) = terminated m
   \<and> (\<forall>r. join e m = Some r \<longrightarrow> terminated (snd r) = terminated m)
   \<and> terminated (snd (kill e m)) = terminated m
   \<and> terminated (shutdown e m) = terminated m
   \<and> terminated (shutdown_signal e sig m) = terminated m
   \<and> (\<forall>r. run e rounds polls m = Some r \<longrightarrow> terminated m \<longrightarrow> terminated (snd r))"
proof -
  have t: "terminated (snd (terminate e m))" for m
    by (simp add: terminate_def)
  have again: "terminate e (snd (terminate e m)) = (Returned, snd (terminate e m))" for m
    using t terminate_again by blast
  have iter: "((\<lambda>m. snd (terminate e m)) ^^ Suc n) m = snd (terminate e m)"
  proof (induction n)
    case 0
    show ?case by simp
  next
    case (Suc n)
    then show ?case using again [of m] by simp
  qed
  have eff: "\<not> terminated m \<longrightarrow>
      effects (snd (terminate e m)) = effects m @ map (\<lambda>p. Terminate (ppid p)) (processes m)"
    by (simp add: terminate_def)
  have ag: "terminated m \<longrightarrow> terminate e m = (Returned, m)"
    by (simp add: terminate_again)
  have a: "terminated (manage e ident is_transient m) = terminated m"
    by (simp add: manage_fields)
  have b: "terminated (snd (start e m)) = terminated m"
    by (simp add: start_def each_process_fields)
  have c: "terminated (snd (wait_for_ack e rounds m)) = terminated m"
    by (simp add: wait_for_ack_def terminated_wait_for_ack_loop)
  have d: "terminated (restart e names kw m) = terminated m"
    by (simp add: restart_def)
  have f: "terminated (snd (kill e m)) = terminated m"
    by (simp add: kill_def)
  have g: "terminated (shutdown e m) = terminated m"
    by (simp add: shutdown_def each_process_fields)
  have h: "terminated (shutdown_signal e sig m) = terminated m"
    by (simp add: shutdown_signal_def shutdown_def each_process_fields)
  have i: "\<forall>r. run e rounds polls m = Some r \<longrightarrow> terminated m \<longrightarrow> terminated (snd r)"
    using terminated_run by blast
  have j: "\<forall>r. join e m = Some r \<longrightarrow> terminated (snd r) = terminated m"
    using terminated_join by blast
  have f1: "fst (terminate e m) = Returned"
    by (simp add: terminate_def)
  show ?thesis
    by (intro conjI)
      (rule f1, rule t, rule eff, rule ag, rule iter, rule a, rule b, rule c,
       rule terminated_monitor, rule d, rule j, rule f, rule g, rule h, rule i)
qed

text \<open>
  Two calls in a row, and a third after a restart and a shutdown, make the three
  requests of the first.
\<close>

theorem terminate_guarded_witness:
  "\<not> terminated two_started
   \<and> fst (terminate posix two_started) = Returned
   \<and> effects (snd (terminate posix (snd (terminate posix two_started))))
       = effects two_started @ [Terminate 101, Terminate 102, Terminate 103]
   \<and> terminated (restart posix None [] (snd (terminate posix two_started)))"
proof -
  have ps: "map (\<lambda>p. Terminate (ppid p)) (processes two_started)
      = [Terminate 101, Terminate 102, Terminate 103]"
    by (simp add: two_started_eq processes_def workers_def)
  have nt: "\<not> terminated two_started"
    by (simp add: two_started_eq)
  note T = terminate_guarded [where e = posix and m = two_started]
  have r0: "fst (terminate posix two_started) = Returned"
    by (rule T [THEN conjunct1])
  have t1: "terminated (snd (terminate posix two_started))"
    by (rule T [THEN conjunct2, THEN conjunct1])
  have first: "effects (snd (terminate posix two_started))
      = effects two_started @ [Terminate 101, Terminate 102, Terminate 103]"
    using T [THEN conjunct2, THEN conjunct2, THEN conjunct1, rule_format, OF nt]
    by (simp only: ps)
  have again: "terminate posix (snd (terminate posix two_started))
      = (Returned, snd (terminate posix two_started))"
    by (rule terminate_guarded [where e = posix and m = "snd (terminate posix two_started)",
          THEN conjunct2, THEN conjunct2, THEN conjunct2, THEN conjunct1, rule_format, OF t1])
  have flag: "terminated (restart posix None [] (snd (terminate posix two_started)))
      = terminated (snd (terminate posix two_started))"
    by (rule terminate_guarded [where e = posix and m = "snd (terminate posix two_started)"
          and names = None and kw = "[]",
          THEN conjunct2, THEN conjunct2, THEN conjunct2, THEN conjunct2, THEN conjunct2,
          THEN conjunct2, THEN conjunct2, THEN conjunct2, THEN conjunct2, THEN conjunct1])
  show ?thesis
    using nt r0 t1 first again flag by simp
qed

text \<open>
  Claim C5, as amended. \<open>restart\<close> calls \<open>restart\<close> with the keyword arguments it was
  given on exactly those processes of the transient workers for which the filter is
  absent or empty or holds the name of the process itself (\<open>process.name\<close>, not the
  name of its worker), in list order; these processes are replaced by what the call
  makes of them, and the durable workers are left as they are.
\<close>

theorem restart_transient_only:
  "effects (restart e process_names kw m) =
     effects m @
     map (\<lambda>p. Restart (ppid p) kw)
       (filter (\<lambda>p. process_names = None \<or> process_names = Some []
                     \<or> (\<exists>names. process_names = Some names \<and> pname p \<in> set names))
          (transient_processes m))
   \<and> transient_processes (restart e process_names kw m) =
       map (\<lambda>p. if process_names = None \<or> process_names = Some []
                     \<or> (\<exists>names. process_names = Some names \<and> pname p \<in> set names)
                 then process_restart e kw p else p)
         (transient_processes m)
   \<and> durable (restart e process_names kw m) = durable m"
proof -
  have nm: "name_matches process_names =
      (\<lambda>p. process_names = None \<or> process_names = Some []
            \<or> (\<exists>names. process_names = Some names \<and> pname p \<in> set names))"
    by (auto simp: name_matches_def fun_eq_iff split: option.splits)
  show ?thesis
    by (simp add: restart_def transient_processes_def on_worker_def map_concat comp_def nm)
qed

theorem restart_transient_only_witness:
  "effects (restart posix (Some [''Server-1-0'', ''Reloader-0'']) [(''reloaded_files'', None)] two_started)
     = effects two_started @ [Restart 102 [(''reloaded_files'', None)]]
   \<and> effects (restart posix None [(''reloaded_files'', Some ''a.py'')] two_started)
     = effects two_started @ [Restart 101 [(''reloaded_files'', Some ''a.py'')],
                              Restart 102 [(''reloaded_files'', Some ''a.py'')]]
   \<and> durable (restart posix None [(''reloaded_files'', Some ''a.py'')] two_started)
     = durable two_started"
  using restart_transient_only [of posix "Some [''Server-1-0'', ''Reloader-0'']" "[(''reloaded_files'', None)]" two_started]
    restart_transient_only [of posix None "[(''reloaded_files'', Some ''a.py'')]" two_started]
  by (simp add: two_started_eq transient_processes_def)

text \<open>
  The claim as stated has the name of the worker looked up in the filter: the filter
  with the worker name \<open>Server-1\<close> restarts nothing, the one with the name
  \<open>Server-1-0\<close> of its process restarts that process.
\<close>

theorem restart_worker_name_counterexample:
  "map wname (transient two_started) = [''Server-0'', ''Server-1'']
   \<and> map pname (transient_processes two_started) = [''Server-0-0'', ''Server-1-0'']
   \<and> effects (restart posix (Some [''Server-1'']) [(''reloaded_files'', None)] two_started)
       = effects two_started
   \<and> effects (restart posix (Some [''Server-1-0'']) [(''reloaded_files'', None)] two_started)
       = effects two_started @ [Restart 102 [(''reloaded_files'', None)]]"
  by (simp add: restart_def name_matches_def transient_processes_def two_started_eq)

text \<open>
  Claim C10. \<open>shutdown\<close> makes a terminate request for exactly the processes that are
  alive and leaves the flag \<open>terminated\<close> as it was; so when the flag was not set, a
  call of \<open>terminate\<close> after \<open>shutdown\<close> makes a request for every process again, and a
  process that was alive has received two.
\<close>

theorem shutdown_then_terminate:
  "effects (shutdown e m) =
     effects m @ map (\<lambda>p. Terminate (ppid p)) (filter (process_is_alive e) (processes m))
   \<and> terminated (shutdown e m) = terminated m
   \<and> (\<not> terminated m \<longrightarrow>
        effects (snd (terminate e (shutdown e m))) =
          effects m
          @ map (\<lambda>p. Terminate (ppid p)) (filter (process_is_alive e) (processes m))
          @ map (\<lambda>p. Terminate (ppid p)) (processes (shutdown e m))
        \<and> length (processes (shutdown e m)) = length (processes m))"
  by (simp add: shutdown_def terminate_def each_process_fields processes_each_process
        processes_fields)

theorem shutdown_then_terminate_witness:
  "\<not> terminated two_started
   \<and> terminated (shutdown posix two_started) = False
   \<and> effects (snd (terminate posix (shutdown posix two_started))) =
       effects two_started
       @ [Terminate 101, Terminate 102, Terminate 103]
       @ [Terminate 101, Terminate 102, Terminate 103]"
  using shutdown_then_terminate [of posix two_started]
  by (simp add: two_started_eq processes_def workers_def posix_fields shutdown_def
        each_process_def on_worker_def)

subsection \<open>The startup barrier\<close>

lemma two_started_processes:
  "processes two_started =
     [\<lparr>pname = ''Server-0-0'', ppid = 101, pstate = 3\<rparr>,
      \<lparr>pname = ''Server-1-0'', ppid = 102, pstate = 3\<rparr>,
      \<lparr>pname = ''Reloader-0'', ppid = 103, pstate = 3\<rparr>]"
  by (simp add: two_started_eq processes_def workers_def)

lemma all_workers_ack_fields:
  "all_workers_ack e (m\<lparr>effects := x\<rparr>) = all_workers_ack e m"
  "all_workers_ack e (m\<lparr>worker_state := t, effects := x\<rparr>) = all_workers_ack e (m\<lparr>worker_state := t\<rparr>)"
  by (simp_all add: all_workers_ack_def)

lemma kill_raises: "fst (kill e m) = Raised ServerKilled"
  by (simp add: kill_def)

lemma check_misses_over:
  "THRESHOLD < n \<Longrightarrow> check_misses e n msg m =
     kill e (m\<lparr>effects := effects m @ [LogError (shutting_down msg)]\<rparr>)"
  by (simp add: check_misses_def)

lemma check_misses_over_case:
  "THRESHOLD < n \<Longrightarrow>
     (case check_misses e n msg m of
        (Returned, m') \<Rightarrow> f m'
      | (Raised x, m') \<Rightarrow> (Raised x, m')
      | (Polling, m') \<Rightarrow> (Polling, m'))
     = kill e (m\<lparr>effects := effects m @ [LogError (shutting_down msg)]\<rparr>)"
  by (simp add: check_misses_def kill_def)


lemma check_misses_under:
  "n \<le> THRESHOLD \<Longrightarrow> check_misses e n msg m = (Returned, m)"
  by (simp add: check_misses_def)

lemma early_diagnostic:
  "shutting_down early_message =
       ''Not all workers acknowledged a successful startup. Shutting down.''
         @ [CHR 0x0A, CHR 0x0A]
         @ ''One of your worker processes terminated before startup was completed. ''
         @ ''Please solve any errors experienced during startup. If you do not see an ''
         @ ''exception traceback in your error logs, try running Sanic in in a single ''
         @ ''process using --single-process or single_process=True. Once you are ''
         @ ''confident that the server is able to start without errors you can switch ''
         @ ''back to multiprocess mode.''"
  by (simp add: shutting_down_def early_message_def)

text \<open>
  Claim C7. In a round of \<open>wait_for_ack\<close> in which the quorum does not hold, the message
  \<open>__TERMINATE_EARLY__\<close> ends the barrier in that round, whatever the miss counter is:
  the error is logged with the text about a worker process that terminated before
  startup was completed, which is not the text logged when the threshold is passed
  without a message; \<open>kill\<close> is called and \<open>ServerKilled\<close> is raised. Any other message
  (\<open>None\<close> included) is sent on the publisher and the loop goes on with the miss
  counter and the diagnostic unchanged.
\<close>

theorem early_termination_kills:
  assumes "\<not> all_workers_ack e (m\<lparr>worker_state := tbl\<rparr>)"
  shows "wait_for_ack_loop e ((tbl, Message (Some ''__TERMINATE_EARLY__'')) # rounds) misses message m
           = kill e (m\<lparr>worker_state := tbl,
                       effects := effects m @ [LogError
       (''Not all workers acknowledged a successful startup. Shutting down.''
         @ [CHR 0x0A, CHR 0x0A]
         @ ''One of your worker processes terminated before startup was completed. ''
         @ ''Please solve any errors experienced during startup. If you do not see an ''
         @ ''exception traceback in your error logs, try running Sanic in in a single ''
         @ ''process using --single-process or single_process=True. Once you are ''
         @ ''confident that the server is able to start without errors you can switch ''
         @ ''back to multiprocess mode.'')]\<rparr>)
       \<and> fst (wait_for_ack_loop e ((tbl, Message (Some ''__TERMINATE_EARLY__'')) # rounds)
                misses message m) = Raised ServerKilled
       \<and> shutting_down early_message \<noteq> shutting_down slow_message
       \<and> (\<forall>x. x \<noteq> Some ''__TERMINATE_EARLY__'' \<longrightarrow>
            wait_for_ack_loop e ((tbl, Message x) # rounds) misses message m
              = wait_for_ack_loop e rounds misses message
                  (m\<lparr>worker_state := tbl, effects := effects m @ [Send x]\<rparr>))"
proof -
  have a: "wait_for_ack_loop e ((tbl, Message (Some ''__TERMINATE_EARLY__'')) # rounds) misses message m
           = kill e (m\<lparr>worker_state := tbl,
                       effects := effects m @ [LogError (shutting_down early_message)]\<rparr>)"
    using assms by (simp add: Let_def check_misses_over_case)
  have b: "wait_for_ack_loop e ((tbl, Message x) # rounds) misses message m
              = wait_for_ack_loop e rounds misses message
                  (m\<lparr>worker_state := tbl, effects := effects m @ [Send x]\<rparr>)"
    if "x \<noteq> Some ''__TERMINATE_EARLY__''" for x
    using assms that by (simp add: Let_def)
  have c: "shutting_down early_message \<noteq> shutting_down slow_message"
    by (simp add: shutting_down_def early_message_def slow_message_def)
  have r: "fst (wait_for_ack_loop e ((tbl, Message (Some ''__TERMINATE_EARLY__'')) # rounds)
                misses message m) = Raised ServerKilled"
    by (simp only: a kill_raises)
  have a': "wait_for_ack_loop e ((tbl, Message (Some ''__TERMINATE_EARLY__'')) # rounds) misses message m
           = kill e (m\<lparr>worker_state := tbl,
                       effects := effects m @ [LogError
       (''Not all workers acknowledged a successful startup. Shutting down.''
         @ [CHR 0x0A, CHR 0x0A]
         @ ''One of your worker processes terminated before startup was completed. ''
         @ ''Please solve any errors experienced during startup. If you do not see an ''
         @ ''exception traceback in your error logs, try running Sanic in in a single ''
         @ ''process using --single-process or single_process=True. Once you are ''
         @ ''confident that the server is able to start without errors you can switch ''
         @ ''back to multiprocess mode.'')]\<rparr>)"
    using a by (simp only: early_diagnostic)
  show ?thesis
    by (intro conjI allI impI) (rule a', rule r, rule c, rule b)
qed

text \<open>Two servers expected, one acknowledged: a restart command, then the sentinel.\<close>

theorem early_termination_kills_witness:
  "\<not> all_workers_ack posix (two_started\<lparr>worker_state := acked_table [''Server-0-0'']\<rparr>)
   \<and> wait_for_ack posix
        [(acked_table [''Server-0-0''], Message (Some ''Server-0:a.py'')),
         (acked_table [''Server-0-0''], Message (Some ''__TERMINATE_EARLY__''))] two_started
      = (Raised ServerKilled,
         two_started\<lparr>worker_state := acked_table [''Server-0-0''],
           effects := effects two_started @
             [Send (Some ''Server-0:a.py''),
              LogError
       (''Not all workers acknowledged a successful startup. Shutting down.''
         @ [CHR 0x0A, CHR 0x0A]
         @ ''One of your worker processes terminated before startup was completed. ''
         @ ''Please solve any errors experienced during startup. If you do not see an ''
         @ ''exception traceback in your error logs, try running Sanic in in a single ''
         @ ''process using --single-process or single_process=True. Once you are ''
         @ ''confident that the server is able to start without errors you can switch ''
         @ ''back to multiprocess mode.''),
              LogKilling ''Server-0-0'' 101, OsKill 101 SIGKILL,
              LogKilling ''Server-1-0'' 102, OsKill 102 SIGKILL,
              LogKilling ''Reloader-0'' 103, OsKill 103 SIGKILL]\<rparr>)"
proof -
  let ?t = "acked_table [''Server-0-0'']"
  let ?d = "''Not all workers acknowledged a successful startup. Shutting down.''
         @ [CHR 0x0A, CHR 0x0A]
         @ ''One of your worker processes terminated before startup was completed. ''
         @ ''Please solve any errors experienced during startup. If you do not see an ''
         @ ''exception traceback in your error logs, try running Sanic in in a single ''
         @ ''process using --single-process or single_process=True. Once you are ''
         @ ''confident that the server is able to start without errors you can switch ''
         @ ''back to multiprocess mode.''"
  let ?m1 = "two_started\<lparr>worker_state := ?t, effects := effects two_started @ [Send (Some ''Server-0:a.py'')]\<rparr>"
  have n1: "\<not> all_workers_ack posix (two_started\<lparr>worker_state := ?t\<rparr>)"
    by (simp add: all_workers_ack_def two_started_eq acked_table_def dict_get_def posix_fields)
  have n2: "\<not> all_workers_ack posix (?m1\<lparr>worker_state := ?t\<rparr>)"
    using n1 by (simp add: all_workers_ack_def)
  have ne: "Some ''Server-0:a.py'' \<noteq> Some ''__TERMINATE_EARLY__''"
    by simp
  have s1: "wait_for_ack_loop posix
        [(?t, Message (Some ''Server-0:a.py'')), (?t, Message (Some ''__TERMINATE_EARLY__''))]
        0 slow_message two_started
      = wait_for_ack_loop posix [(?t, Message (Some ''__TERMINATE_EARLY__''))] 0 slow_message ?m1"
    by (rule early_termination_kills [OF n1, of "[(?t, Message (Some ''__TERMINATE_EARLY__''))]" 0 slow_message,
          THEN conjunct2, THEN conjunct2, THEN conjunct2, rule_format, OF ne])
  have s2: "wait_for_ack_loop posix [(?t, Message (Some ''__TERMINATE_EARLY__''))] 0 slow_message ?m1
      = kill posix (?m1\<lparr>worker_state := ?t, effects := effects ?m1 @ [LogError ?d]\<rparr>)"
    by (rule early_termination_kills [OF n2, of "[]" 0 slow_message, THEN conjunct1])
  have "wait_for_ack posix
        [(?t, Message (Some ''Server-0:a.py'')), (?t, Message (Some ''__TERMINATE_EARLY__''))]
        two_started
      = kill posix (?m1\<lparr>worker_state := ?t, effects := effects ?m1 @ [LogError ?d]\<rparr>)"
    by (simp only: wait_for_ack_def s1 s2)
  then show ?thesis
    using n1 by (simp add: kill_def processes_fields two_started_processes
        SIGKILL_const_def posix_fields)
qed





subsection \<open>Join\<close>

lemma joined_pids_empty:
  "joined_pids e m = [] \<longleftrightarrow> (\<forall>p \<in> set (processes m). \<not> pstate p < JOINED e)"
  by (simp add: joined_pids_def filter_empty_conv)

lemma join_pass_idle: "joined_pids e m = [] \<Longrightarrow> join_pass e m = m"
proof -
  assume a: "joined_pids e m = []"
  then have "each_process (\<lambda>p. if pstate p < JOINED e then process_join e p else p) m = m"
    by (intro each_process_id) (simp add: joined_pids_empty)
  with a show ?thesis by (simp add: join_pass_def)
qed

lemma processes_join_pass:
  "processes (join_pass e m) =
     map (\<lambda>p. if pstate p < JOINED e then process_join e p else p) (processes m)"
  by (simp add: join_pass_def processes_fields processes_each_process)

lemma join_after_passes:
  assumes "\<forall>j<k. joined_pids e ((join_pass e ^^ j) m) \<noteq> []"
    and "joined_pids e ((join_pass e ^^ k) m) = []"
  shows "join e m = Some (Returned, (join_pass e ^^ k) m)"
  using assms
proof (induction k arbitrary: m)
  case 0
  then show ?case by (simp add: join.simps join_pass_idle)
next
  case (Suc k)
  from Suc.prems(1) have first: "joined_pids e m \<noteq> []" by force
  have "\<forall>j<k. joined_pids e ((join_pass e ^^ j) (join_pass e m)) \<noteq> []"
  proof (intro allI impI)
    fix j assume "j < k"
    then have "joined_pids e ((join_pass e ^^ Suc j) m) \<noteq> []"
      using Suc.prems(1) by (meson Suc_less_eq)
    then show "joined_pids e ((join_pass e ^^ j) (join_pass e m)) \<noteq> []"
      by (simp add: funpow_swap1)
  qed
  moreover have "joined_pids e ((join_pass e ^^ k) (join_pass e m)) = []"
    using Suc.prems(2) by (simp add: funpow_swap1)
  ultimately have "join e (join_pass e m) = Some (Returned, (join_pass e ^^ k) (join_pass e m))"
    by (rule Suc.IH)
  with first show ?case by (subst join.simps) (simp add: funpow_swap1)
qed

lemma join_returns_passes:
  assumes "join e m = Some r"
  shows "\<exists>k. (\<forall>j<k. joined_pids e ((join_pass e ^^ j) m) \<noteq> [])
           \<and> joined_pids e ((join_pass e ^^ k) m) = []
           \<and> r = (Returned, (join_pass e ^^ k) m)"
proof (rule join.raw_induct [where e = e and m = m and y = r and
      P = "\<lambda>e m r. \<exists>k. (\<forall>j<k. joined_pids e ((join_pass e ^^ j) m) \<noteq> [])
           \<and> joined_pids e ((join_pass e ^^ k) m) = []
           \<and> r = (Returned, (join_pass e ^^ k) m)"])
  show "join e m = Some r" by fact
next
  fix j e m r
  assume IH: "\<And>e' m' r'. j e' m' = Some r' \<Longrightarrow>
      \<exists>k. (\<forall>i<k. joined_pids e' ((join_pass e' ^^ i) m') \<noteq> [])
           \<and> joined_pids e' ((join_pass e' ^^ k) m') = []
           \<and> r' = (Returned, (join_pass e' ^^ k) m')"
    and eq: "(if joined_pids e m \<noteq> [] then j e (join_pass e m)
              else Some (Returned, join_pass e m)) = Some r"
  show "\<exists>k. (\<forall>i<k. joined_pids e ((join_pass e ^^ i) m) \<noteq> [])
           \<and> joined_pids e ((join_pass e ^^ k) m) = []
           \<and> r = (Returned, (join_pass e ^^ k) m)"
  proof (cases "joined_pids e m \<noteq> []")
    case False
    with eq have "r = (Returned, m)" by (simp add: join_pass_idle)
    with False show ?thesis by (intro exI [of _ 0]) simp
  next
    case True
    with eq have "j e (join_pass e m) = Some r" by simp
    from IH [OF this] obtain k where
      k1: "\<forall>i<k. joined_pids e ((join_pass e ^^ i) (join_pass e m)) \<noteq> []"
      and k2: "joined_pids e ((join_pass e ^^ k) (join_pass e m)) = []"
      and k3: "r = (Returned, (join_pass e ^^ k) (join_pass e m))" by blast
    have "\<forall>i<Suc k. joined_pids e ((join_pass e ^^ i) m) \<noteq> []"
    proof (intro allI impI)
      fix i assume i: "i < Suc k"
      show "joined_pids e ((join_pass e ^^ i) m) \<noteq> []"
      proof (cases i)
        case 0
        with True show ?thesis by simp
      next
        case (Suc i')
        with i k1 have "joined_pids e ((join_pass e ^^ i') (join_pass e m)) \<noteq> []" by simp
        with Suc show ?thesis by (simp add: funpow_swap1)
      qed
    qed
    moreover have "joined_pids e ((join_pass e ^^ Suc k) m) = []"
      using k2 by (simp add: funpow_swap1)
    moreover have "r = (Returned, (join_pass e ^^ Suc k) m)"
      using k3 by (simp add: funpow_swap1)
    ultimately show ?thesis by blast
  qed
qed

lemma join_total_when_joined:
  assumes "\<forall>p. JOINED e \<le> pstate (process_join e p)"
  shows "join e m = Some (Returned, join_pass e m)"
proof -
  have fin: "joined_pids e (join_pass e m) = []"
    using assms by (auto simp: joined_pids_empty processes_join_pass not_less)
  show ?thesis
  proof (cases "joined_pids e m = []")
    case True
    then show ?thesis by (subst join.simps) simp
  next
    case False
    have "join e (join_pass e m) = Some (Returned, join_pass e m)"
      using fin by (subst join.simps) (simp add: join_pass_idle)
    with False show ?thesis by (subst join.simps) simp
  qed
qed

text \<open>
  Claim C9. A pass of \<open>join\<close> joins exactly the processes whose state is below
  \<open>JOINED\<close>, in list order, replacing each by what its \<open>join\<close> makes of it. \<open>join\<close>
  returns exactly when, after some number \<open>k\<close> of passes that each joined at least one
  process, a pass over all processes finds none below \<open>JOINED\<close>; it then returns the
  manager as those \<open>k\<close> passes left it. When a joined process is never below \<open>JOINED\<close>
  afterwards, \<open>join\<close> returns after the first pass and one more that joins nothing.
\<close>

theorem join_fixed_point:
  "effects (join_pass e m) =
     effects m @ map (\<lambda>p. Join (ppid p)) (filter (\<lambda>p. pstate p < JOINED e) (processes m))
   \<and> processes (join_pass e m) =
       map (\<lambda>p. if pstate p < JOINED e then process_join e p else p) (processes m)
   \<and> (join e m = Some r \<longleftrightarrow>
        (\<exists>k. (\<forall>j<k. \<exists>p \<in> set (processes ((join_pass e ^^ j) m)). pstate p < JOINED e)
            \<and> (\<forall>p \<in> set (processes ((join_pass e ^^ k) m)). \<not> pstate p < JOINED e)
            \<and> r = (Returned, (join_pass e ^^ k) m)))
   \<and> ((\<forall>p. JOINED e \<le> pstate (process_join e p)) \<longrightarrow>
        join e m = Some (Returned, join_pass e m))"
proof -
  have a: "effects (join_pass e m) =
     effects m @ map (\<lambda>p. Join (ppid p)) (filter (\<lambda>p. pstate p < JOINED e) (processes m))"
    by (simp add: join_pass_def joined_pids_def)
  have ne: "joined_pids e m' \<noteq> [] \<longleftrightarrow> (\<exists>p \<in> set (processes m'). pstate p < JOINED e)" for m'
    by (simp add: joined_pids_empty)
  have c: "join e m = Some r \<longleftrightarrow>
        (\<exists>k. (\<forall>j<k. joined_pids e ((join_pass e ^^ j) m) \<noteq> [])
            \<and> joined_pids e ((join_pass e ^^ k) m) = []
            \<and> r = (Returned, (join_pass e ^^ k) m))"
    using join_returns_passes join_after_passes by blast
  show ?thesis
    using a processes_join_pass [of e m] c join_total_when_joined [of e m]
    unfolding ne joined_pids_empty by blast
qed

theorem join_fixed_point_witness:
  "join posix two_started =
     Some (Returned,
           two_started\<lparr>
             transient :=
               [\<lparr>wname = ''Server-0'',
                 wprocesses = [\<lparr>pname = ''Server-0-0'', ppid = 101, pstate = 5\<rparr>]\<rparr>,
                \<lparr>wname = ''Server-1'',
                 wprocesses = [\<lparr>pname = ''Server-1-0'', ppid = 102, pstate = 5\<rparr>]\<rparr>],
             durable :=
               [\<lparr>wname = ''Reloader'',
                 wprocesses = [\<lparr>pname = ''Reloader-0'', ppid = 103, pstate = 5\<rparr>]\<rparr>],
             effects := effects two_started @ [Join 101, Join 102, Join 103]\<rparr>)"
proof -
  have "\<forall>p. JOINED posix \<le> pstate (process_join posix p)"
    by (simp add: posix_fields)
  then have j: "join posix two_started = Some (Returned, join_pass posix two_started)"
    using join_fixed_point [of posix two_started] by blast
  have jp: "join_pass posix two_started =
      two_started\<lparr>
             transient :=
               [\<lparr>wname = ''Server-0'',
                 wprocesses = [\<lparr>pname = ''Server-0-0'', ppid = 101, pstate = 5\<rparr>]\<rparr>,
                \<lparr>wname = ''Server-1'',
                 wprocesses = [\<lparr>pname = ''Server-1-0'', ppid = 102, pstate = 5\<rparr>]\<rparr>],
             durable :=
               [\<lparr>wname = ''Reloader'',
                 wprocesses = [\<lparr>pname = ''Reloader-0'', ppid = 103, pstate = 5\<rparr>]\<rparr>],
             effects := effects two_started @ [Join 101, Join 102, Join 103]\<rparr>"
    by (simp add: join_pass_def joined_pids_def posix_fields each_process_def on_worker_def
        two_started_eq processes_def workers_def)
  show ?thesis
    using j jp by simp
qed

subsection \<open>The command loop\<close>

lemma split_nonempty: "split sep s \<noteq> []"
  by (induction s) (simp_all split: list.splits)

lemma takeWhile_no_sep: "sep \<notin> set s \<Longrightarrow> takeWhile (\<lambda>c. c \<noteq> sep) s = s"
  by (induction s) auto

lemma hd_split1: "hd (split1 sep s) = takeWhile (\<lambda>c. c \<noteq> sep) s"
  by (simp add: split1_def takeWhile_no_sep)

lemma process_names_of_eq:
  "process_names_of s =
     (let names = map strip (split (CHR '','') (takeWhile (\<lambda>c. c \<noteq> CHR '':'') s))
      in if ''__ALL_PROCESSES__'' \<in> set names then None else Some names)"
  by (simp add: process_names_of_def Let_def hd_split1)

lemma reloaded_files_of_eq:
  "reloaded_files_of s =
     (if CHR '':'' \<in> set s then Some (tl (dropWhile (\<lambda>c. c \<noteq> CHR '':'') s)) else None)"
  by (simp add: reloaded_files_of_def split1_def)

lemma all_processes_example:
  "process_names_of ''__ALL_PROCESSES__:changed.py'' = None"
  "reloaded_files_of ''__ALL_PROCESSES__:changed.py'' = Some ''changed.py''"
  by code_simp+

lemma no_names_example:
  "process_names_of '':changed.py'' = Some ['''']"
  "reloaded_files_of '':changed.py'' = Some ''changed.py''"
  by code_simp+

text \<open>
  Claim C6, as amended. After the barrier has returned, \<open>monitor\<close> runs the loop. A
  message that is \<open>None\<close> or empty ends the loop without a call of \<open>shutdown\<close>;
  \<open>__TERMINATE__\<close> calls \<open>shutdown\<close>, which makes a terminate request for the
  processes that are alive, and ends the loop. Any other message is split at its first
  colon: the part before it, split at commas and stripped, gives the names, the part
  after it (or \<open>None\<close> without a colon) the payload, and \<open>restart\<close> is called with the
  payload unchanged and with the names as the filter, there being no filter only when
  \<open>__ALL_PROCESSES__\<close> is one of the names; the list of names is never empty. So
  \<open>__ALL_PROCESSES__:changed.py\<close> restarts every transient process with the payload
  \<open>changed.py\<close> and no durable one.
\<close>

theorem monitor_dispatch:
  "(fst (wait_for_ack e rounds m) = Returned \<longrightarrow>
      monitor e rounds polls m = monitor_loop e polls (snd (wait_for_ack e rounds m)))
   \<and> monitor_loop e (Message None # polls) m = (Returned, m)
   \<and> monitor_loop e (Message (Some []) # polls) m = (Returned, m)
   \<and> monitor_loop e (Message (Some ''__TERMINATE__'') # polls) m = (Returned, shutdown e m)
   \<and> effects (shutdown e m) =
       effects m @ map (\<lambda>p. Terminate (ppid p)) (filter (process_is_alive e) (processes m))
   \<and> (s \<noteq> [] \<and> s \<noteq> ''__TERMINATE__'' \<longrightarrow>
        (let names = map strip (split (CHR '','') (takeWhile (\<lambda>c. c \<noteq> CHR '':'') s));
             payload = (if CHR '':'' \<in> set s
                        then Some (tl (dropWhile (\<lambda>c. c \<noteq> CHR '':'') s)) else None)
         in names \<noteq> []
            \<and> monitor_loop e (Message (Some s) # polls) m =
                monitor_loop e polls
                  (restart e (if ''__ALL_PROCESSES__'' \<in> set names then None else Some names)
                     [(''reloaded_files'', payload)] m)))
   \<and> monitor_loop e (Message (Some ''__ALL_PROCESSES__:changed.py'') # polls) m =
       monitor_loop e polls (restart e None [(''reloaded_files'', Some ''changed.py'')] m)
   \<and> effects (restart e None [(''reloaded_files'', Some ''changed.py'')] m) =
       effects m @ map (\<lambda>p. Restart (ppid p) [(''reloaded_files'', Some ''changed.py'')])
                       (transient_processes m)
   \<and> durable (restart e None [(''reloaded_files'', Some ''changed.py'')] m) = durable m"
proof -
  have a: "effects (shutdown e m) =
       effects m @ map (\<lambda>p. Terminate (ppid p)) (filter (process_is_alive e) (processes m))"
    by (simp add: shutdown_def)
  have b: "s \<noteq> [] \<and> s \<noteq> ''__TERMINATE__'' \<longrightarrow>
        (let names = map strip (split (CHR '','') (takeWhile (\<lambda>c. c \<noteq> CHR '':'') s));
             payload = (if CHR '':'' \<in> set s
                        then Some (tl (dropWhile (\<lambda>c. c \<noteq> CHR '':'') s)) else None)
         in names \<noteq> []
            \<and> monitor_loop e (Message (Some s) # polls) m =
                monitor_loop e polls
                  (restart e (if ''__ALL_PROCESSES__'' \<in> set names then None else Some names)
                     [(''reloaded_files'', payload)] m))"
    by (simp add: Let_def split_nonempty process_names_of_eq reloaded_files_of_eq)
  have c: "monitor_loop e (Message (Some ''__ALL_PROCESSES__:changed.py'') # polls) m =
       monitor_loop e polls (restart e None [(''reloaded_files'', Some ''changed.py'')] m)"
    by (simp add: all_processes_example)
  have d: "effects (restart e None kw m) =
       effects m @ map (\<lambda>p. Restart (ppid p) kw) (transient_processes m)
       \<and> durable (restart e None kw m) = durable m" for kw
    by (simp add: restart_def name_matches_def)
  have f: "fst (wait_for_ack e rounds m) = Returned \<longrightarrow>
      monitor e rounds polls m = monitor_loop e polls (snd (wait_for_ack e rounds m))"
    by (cases "wait_for_ack e rounds m") (simp add: monitor_def)
  show ?thesis
    using a b c d f by simp
qed

text \<open>A restart command for one server and the reloader, then \<open>__TERMINATE__\<close>.\<close>

theorem monitor_dispatch_witness:
  "monitor_loop posix [Message (Some '' Server-1-0 ,Reloader-0''), Message (Some ''__TERMINATE__'')]
       two_started
     = (Returned,
        two_started\<lparr>
          transient :=
            [\<lparr>wname = ''Server-0'',
              wprocesses = [\<lparr>pname = ''Server-0-0'', ppid = 101, pstate = 6\<rparr>]\<rparr>,
             \<lparr>wname = ''Server-1'',
              wprocesses = [\<lparr>pname = ''Server-1-0'', ppid = 102, pstate = 1\<rparr>]\<rparr>],
          durable :=
            [\<lparr>wname = ''Reloader'',
              wprocesses = [\<lparr>pname = ''Reloader-0'', ppid = 103, pstate = 6\<rparr>]\<rparr>],
          effects := effects two_started @
            [Restart 102 [(''reloaded_files'', None)], Terminate 101, Terminate 103]\<rparr>)"
proof -
  let ?s = "'' Server-1-0 ,Reloader-0''"
  have names: "map strip (split (CHR '','') (takeWhile (\<lambda>c. c \<noteq> CHR '':'') ?s))
      = [''Server-1-0'', ''Reloader-0'']"
    by code_simp
  have ne: "?s \<noteq> [] \<and> ?s \<noteq> ''__TERMINATE__''"
    by simp
  have pay: "(if CHR '':'' \<in> set ?s
              then Some (tl (dropWhile (\<lambda>c. c \<noteq> CHR '':'') ?s)) else None) = None"
    by simp
  have flt: "(if ''__ALL_PROCESSES__'' \<in> set [''Server-1-0'', ''Reloader-0''] then None
              else Some [''Server-1-0'', ''Reloader-0'']) = Some [''Server-1-0'', ''Reloader-0'']"
    by simp
  from monitor_dispatch [where e = posix and m = two_started and s = "?s"
      and polls = "[Message (Some ''__TERMINATE__'')]"] ne
  have "let names = map strip (split (CHR '','') (takeWhile (\<lambda>c. c \<noteq> CHR '':'') ?s));
            payload = (if CHR '':'' \<in> set ?s
                       then Some (tl (dropWhile (\<lambda>c. c \<noteq> CHR '':'') ?s)) else None)
        in names \<noteq> []
           \<and> monitor_loop posix (Message (Some ?s) # [Message (Some ''__TERMINATE__'')]) two_started =
               monitor_loop posix [Message (Some ''__TERMINATE__'')]
                 (restart posix (if ''__ALL_PROCESSES__'' \<in> set names then None else Some names)
                    [(''reloaded_files'', payload)] two_started)"
    by blast
  then have step:
    "monitor_loop posix (Message (Some ?s) # [Message (Some ''__TERMINATE__'')]) two_started
      = monitor_loop posix [Message (Some ''__TERMINATE__'')]
          (restart posix (Some [''Server-1-0'', ''Reloader-0'']) [(''reloaded_files'', None)]
             two_started)"
    unfolding Let_def names pay flt by (rule conjunct2)
  show ?thesis
    unfolding step
    by (simp add: restart_def shutdown_def name_matches_def each_process_def on_worker_def
        transient_processes_def processes_def workers_def posix_fields two_started_eq)
qed

text \<open>
  The claim as stated has no filter when no names are given: the message
  \<open>:changed.py\<close> gives the filter with the empty name alone, and no process is
  restarted, where a call without a filter would restart both servers.
\<close>

theorem monitor_no_names_counterexample:
  "process_names_of '':changed.py'' = Some ['''']
   \<and> monitor_loop posix [Message (Some '':changed.py'')] two_started = (Polling, two_started)
   \<and> monitor_loop posix [Message (Some '':changed.py'')] two_started
       \<noteq> (Polling, restart posix None [(''reloaded_files'', Some ''changed.py'')] two_started)"
  by (simp add: no_names_example restart_def name_matches_def on_worker_def
      transient_processes_def posix_fields two_started_eq)

subsection \<open>Terminate requests over a whole run\<close>

text \<open>
  As stated, claim C4 has one terminate request for each process over the manager's
  lifetime. In a run that receives \<open>__TERMINATE__\<close> each process gets one request from
  \<open>shutdown\<close> and a second from \<open>terminate\<close>; and a worker managed after \<open>terminate\<close>
  gets none from the next call.
\<close>

theorem terminate_lifetime_counterexample:
  "run posix [(acked_table [''Server-0-0'', ''Server-1-0''], NoMessage)]
       [Message (Some ''__TERMINATE__'')] two_servers
     = Some (terminate posix
         (shutdown posix
            (two_started\<lparr>worker_state := acked_table [''Server-0-0'', ''Server-1-0'']\<rparr>)))
   \<and> effects (snd (terminate posix
         (shutdown posix
            (two_started\<lparr>worker_state := acked_table [''Server-0-0'', ''Server-1-0'']\<rparr>))))
       = effects two_started @
           [Terminate 101, Terminate 102, Terminate 103,
            Terminate 101, Terminate 102, Terminate 103]
   \<and> map ppid (processes (manage posix ''Late'' False (snd (terminate posix two_started))))
       = [101, 102, 103, 104]
   \<and> effects (snd (terminate posix
         (manage posix ''Late'' False (snd (terminate posix two_started)))))
       = effects two_started @ [Terminate 101, Terminate 102, Terminate 103]"
proof -
  let ?t = "acked_table [''Server-0-0'', ''Server-1-0'']"
  let ?m1 = "two_started\<lparr>worker_state := ?t\<rparr>"
  let ?m2 = "shutdown posix ?m1"
  have st: "start posix two_servers = (Returned, two_started)"
    by (simp add: two_started_def start_def)
  have ack: "all_workers_ack posix ?m1"
    by (simp add: all_workers_ack_def two_started_eq acked_table_def dict_get_def posix_fields)
  have w: "wait_for_ack posix [(?t, NoMessage)] two_started = (Returned, ?m1)"
    using ack by (simp add: wait_for_ack_def Let_def)
  have mo: "monitor posix [(?t, NoMessage)] [Message (Some ''__TERMINATE__'')] two_started
      = (Returned, ?m2)"
    by (simp add: monitor_def w)
  have ps2: "processes ?m2 =
     [\<lparr>pname = ''Server-0-0'', ppid = 101, pstate = 6\<rparr>,
      \<lparr>pname = ''Server-1-0'', ppid = 102, pstate = 6\<rparr>,
      \<lparr>pname = ''Reloader-0'', ppid = 103, pstate = 6\<rparr>]"
    by (simp add: shutdown_def processes_fields processes_each_process two_started_processes
        posix_fields)
  have j0: "joined_pids posix ?m2 = []"
    by (simp add: joined_pids_def ps2 posix_fields)
  have jn: "join posix ?m2 = Some (Returned, ?m2)"
    by (subst join.simps) (simp add: j0 join_pass_idle)
  have r: "run posix [(?t, NoMessage)] [Message (Some ''__TERMINATE__'')] two_servers
      = Some (terminate posix ?m2)"
    by (simp add: run_def st mo jn)
  have nt: "\<not> terminated ?m2"
    by (simp add: shutdown_def each_process_fields two_started_eq)
  have e2: "effects ?m2 = effects two_started @ [Terminate 101, Terminate 102, Terminate 103]"
    by (simp add: shutdown_def processes_fields two_started_processes posix_fields)
  have e3: "effects (snd (terminate posix ?m2))
      = effects two_started @
           [Terminate 101, Terminate 102, Terminate 103,
            Terminate 101, Terminate 102, Terminate 103]"
    using nt by (simp add: terminate_def e2 ps2)
  let ?m3 = "snd (terminate posix two_started)"
  have W: "Worker posix ident tbl =
      (\<lparr>wname = ident,
        wprocesses = [\<lparr>pname = ident @ ''-0'', ppid = 100 + length tbl, pstate = 0\<rparr>]\<rparr>,
       AList.update (ident @ ''-0'') [(''server'', PBool (take 6 ident = ''Server''))] tbl)"
    for ident tbl
    by (simp add: posix_def)
  have late: "map ppid (processes (manage posix ''Late'' False ?m3)) = [101, 102, 103, 104]"
    by (simp add: manage_def W terminate_def each_process_def on_worker_def processes_def
        workers_def posix_fields two_started_eq)
  have e4: "effects (snd (terminate posix (manage posix ''Late'' False ?m3)))
      = effects two_started @ [Terminate 101, Terminate 102, Terminate 103]"
    by (simp add: manage_def W terminate_def each_process_def on_worker_def processes_def
        workers_def posix_fields two_started_eq)
  show ?thesis
    by (intro conjI) (rule r, rule e3, rule late, rule e4)
qed

end
